theory Spec2Isabelle
  imports Main "HOL-Library.Word"
begin

unbundle bit_operations_syntax

section \<open>SHA-256, the digest that hashlib computes\<close>

text \<open>
  The engine calls \<^verbatim>\<open>hashlib.sha256(data).digest()\<close>. The digest is written out here
  as FIPS 180-4 defines it, on 32-bit words, so that every block and every trace below
  is a value that can be computed.
\<close>


type_synonym byte = "8 word"
type_synonym u32 = "32 word"

definition K256 :: "u32 list" where
  "K256 =
   [0x428A2F98, 0x71374491, 0xB5C0FBCF, 0xE9B5DBA5, 0x3956C25B, 0x59F111F1, 0x923F82A4, 0xAB1C5ED5,
    0xD807AA98, 0x12835B01, 0x243185BE, 0x550C7DC3, 0x72BE5D74, 0x80DEB1FE, 0x9BDC06A7, 0xC19BF174,
    0xE49B69C1, 0xEFBE4786, 0x0FC19DC6, 0x240CA1CC, 0x2DE92C6F, 0x4A7484AA, 0x5CB0A9DC, 0x76F988DA,
    0x983E5152, 0xA831C66D, 0xB00327C8, 0xBF597FC7, 0xC6E00BF3, 0xD5A79147, 0x06CA6351, 0x14292967,
    0x27B70A85, 0x2E1B2138, 0x4D2C6DFC, 0x53380D13, 0x650A7354, 0x766A0ABB, 0x81C2C92E, 0x92722C85,
    0xA2BFE8A1, 0xA81A664B, 0xC24B8B70, 0xC76C51A3, 0xD192E819, 0xD6990624, 0xF40E3585, 0x106AA070,
    0x19A4C116, 0x1E376C08, 0x2748774C, 0x34B0BCB5, 0x391C0CB3, 0x4ED8AA4A, 0x5B9CCA4F, 0x682E6FF3,
    0x748F82EE, 0x78A5636F, 0x84C87814, 0x8CC70208, 0x90BEFFFA, 0xA4506CEB, 0xBEF9A3F7, 0xC67178F2]"

definition rotr :: "nat \<Rightarrow> u32 \<Rightarrow> u32" where
  "rotr n x = word_rotr n x"

definition Ch :: "u32 \<Rightarrow> u32 \<Rightarrow> u32 \<Rightarrow> u32" where
  "Ch x y z = (x AND y) XOR (NOT x AND z)"

definition Maj :: "u32 \<Rightarrow> u32 \<Rightarrow> u32 \<Rightarrow> u32" where
  "Maj x y z = (x AND y) XOR (x AND z) XOR (y AND z)"

definition Sigma0 :: "u32 \<Rightarrow> u32" where
  "Sigma0 x = rotr 2 x XOR rotr 13 x XOR rotr 22 x"

definition Sigma1 :: "u32 \<Rightarrow> u32" where
  "Sigma1 x = rotr 6 x XOR rotr 11 x XOR rotr 25 x"

definition sigma0 :: "u32 \<Rightarrow> u32" where
  "sigma0 x = rotr 7 x XOR rotr 18 x XOR drop_bit 3 x"

definition sigma1 :: "u32 \<Rightarrow> u32" where
  "sigma1 x = rotr 17 x XOR rotr 19 x XOR drop_bit 10 x"

definition be32 :: "u32 \<Rightarrow> byte list" where
  "be32 w = [ucast (drop_bit 24 w), ucast (drop_bit 16 w), ucast (drop_bit 8 w), ucast w]"

definition be64 :: "64 word \<Rightarrow> byte list" where
  "be64 w = map (\<lambda>k. ucast (drop_bit (8 * k) w)) [7, 6, 5, 4, 3, 2, 1, 0]"

fun words_be :: "byte list \<Rightarrow> u32 list" where
  "words_be (a # b # c # d # rest) =
     (push_bit 24 (ucast a) OR push_bit 16 (ucast b) OR push_bit 8 (ucast c) OR ucast d) # words_be rest"
| "words_be _ = []"

definition sha_pad :: "byte list \<Rightarrow> byte list" where
  "sha_pad msg =
     msg @ [0x80] @ replicate ((64 - (length msg + 9) mod 64) mod 64) 0
         @ be64 (word_of_nat (8 * length msg))"

fun schedule :: "nat \<Rightarrow> u32 list \<Rightarrow> u32 list" where
  "schedule 0 w = w"
| "schedule (Suc n) w =
     (let t = length w
      in schedule n (w @ [sigma1 (w ! (t - 2)) + w ! (t - 7) + sigma0 (w ! (t - 15)) + w ! (t - 16)]))"

type_synonym hstate = "u32 \<times> u32 \<times> u32 \<times> u32 \<times> u32 \<times> u32 \<times> u32 \<times> u32"

fun round256 :: "hstate \<Rightarrow> u32 \<times> u32 \<Rightarrow> hstate" where
  "round256 (a, b, c, d, e, f, g, h) (k, w) =
     (let t1 = h + Sigma1 e + Ch e f g + k + w;
          t2 = Sigma0 a + Maj a b c
      in (t1 + t2, a, b, c, d + t1, e, f, g))"

fun add_state :: "hstate \<Rightarrow> hstate \<Rightarrow> hstate" where
  "add_state (a, b, c, d, e, f, g, h) (a', b', c', d', e', f', g', h') =
     (a + a', b + b', c + c', d + d', e + e', f + f', g + g', h + h')"

definition compress :: "hstate \<Rightarrow> byte list \<Rightarrow> hstate" where
  "compress hs block =
     add_state hs (foldl round256 hs (zip K256 (schedule 48 (words_be block))))"

function blocks64 :: "byte list \<Rightarrow> byte list list" where
  "blocks64 bs = (if bs = [] then [] else take 64 bs # blocks64 (drop 64 bs))"
  by pat_completeness auto
termination
  by (relation "measure length") auto

declare blocks64.simps [simp del]

definition H0 :: hstate where
  "H0 = (0x6A09E667, 0xBB67AE85, 0x3C6EF372, 0xA54FF53A,
         0x510E527F, 0x9B05688C, 0x1F83D9AB, 0x5BE0CD19)"

fun digest_bytes :: "hstate \<Rightarrow> byte list" where
  "digest_bytes (a, b, c, d, e, f, g, h) =
     be32 a @ be32 b @ be32 c @ be32 d @ be32 e @ be32 f @ be32 g @ be32 h"

definition sha256 :: "byte list \<Rightarrow> byte list" where
  "sha256 msg = digest_bytes (foldl compress H0 (blocks64 (sha_pad msg)))"

section \<open>Python values: bytes, indexing, slices, errors\<close>

datatype error = ValueError | IndexError

text \<open>\<^verbatim>\<open>bytes([v, ...])\<close> raises ValueError unless every value is in range(256).\<close>

definition py_bytes :: "int list \<Rightarrow> error + byte list" where
  "py_bytes vs =
     (if list_all (\<lambda>v. 0 \<le> v \<and> v < 256) vs then Inr (map word_of_int vs) else Inl ValueError)"

text \<open>\<^verbatim>\<open>b'\xFF' * n\<close>: a non-positive count gives the empty string.\<close>

definition py_repeat :: "byte \<Rightarrow> int \<Rightarrow> byte list" where
  "py_repeat b n = replicate (nat n) b"

text \<open>\<^verbatim>\<open>xs[i]\<close>: a negative index counts from the end; out of range raises IndexError.\<close>

definition py_index :: "'a list \<Rightarrow> int \<Rightarrow> error + 'a" where
  "py_index xs i =
     (if 0 \<le> i \<and> i < int (length xs) then Inr (xs ! nat i)
      else if i < 0 \<and> - int (length xs) \<le> i then Inr (xs ! nat (int (length xs) + i))
      else Inl IndexError)"

text \<open>\<^verbatim>\<open>xs[i:j]\<close>: both bounds are clamped to the sequence, negative ones count from the end.\<close>

definition py_bound :: "nat \<Rightarrow> int \<Rightarrow> nat" where
  "py_bound n k = (if k < 0 then nat (max 0 (int n + k)) else min (nat k) n)"

definition py_slice :: "'a list \<Rightarrow> int \<Rightarrow> int \<Rightarrow> 'a list" where
  "py_slice xs i j =
     (let lo = py_bound (length xs) i; hi = py_bound (length xs) j
      in take (hi - lo) (drop lo xs))"

section \<open>SignatureBlock\<close>

definition HASH_LEN :: int where
  "HASH_LEN = 32"

definition PADDING_TYPE_PADDED :: int where
  "PADDING_TYPE_PADDED = 0x01"

definition PADDING_TYPE_UNPADDED :: int where
  "PADDING_TYPE_UNPADDED = 0x02"

definition INNER_BLOCK_REAL_LEN :: int where
  "INNER_BLOCK_REAL_LEN = 13"

definition TOTAL_BLOCK_SIZE :: int where
  "TOTAL_BLOCK_SIZE = 128"

record SignatureBlock =
  firmware_data :: "byte list"
  padding_type :: int
  inner_block_len_byte :: int
  raw :: "byte list"
  off_byte0 :: int
  off_byte1 :: int
  off_padding_start :: int
  off_padding_end :: int
  off_separator :: int
  off_30_1 :: int
  off_31 :: int
  off_30_2 :: int
  off_0d :: int
  off_inner_start :: int
  off_inner_end :: int
  off_04 :: int
  off_20 :: int
  off_correct_hash :: int
  off_calc_hash :: int
  correct_hash :: "byte list"
  calculated_hash :: "byte list"

definition inner_block :: "byte list" where
  "inner_block = [0x06, 0x09, 0x60, 0x86, 0x48, 0x01, 0x65, 0x03, 0x04, 0x02, 0x01, 0x05, 0x00]"

text \<open>
  \<^verbatim>\<open>SignatureBlock._build\<close>, as a function of the three attributes that \<^verbatim>\<open>__init__\<close>
  has set. The two \<^verbatim>\<open>bytes([...])\<close> calls that take a caller's value are the only places
  where it can raise.
\<close>

definition SignatureBlock_build :: "byte list \<Rightarrow> int \<Rightarrow> int \<Rightarrow> error + SignatureBlock" where
  "SignatureBlock_build fw pt ilb =
     (case py_bytes [0x00, pt] of
        Inl e \<Rightarrow> Inl e
      | Inr header \<Rightarrow>
          let padding =
                (if pt = 0x01
                 then (let fixed_tail = 1 + 1 + 1 + 1 + 1 + INNER_BLOCK_REAL_LEN + 1 + 1 + HASH_LEN;
                           pad_len = TOTAL_BLOCK_SIZE - int (length header) - 1 - fixed_tail;
                           pad_len = max pad_len 8
                       in py_repeat 0xFF pad_len)
                 else []);
              separator = [0x00];
              chash = sha256 fw
          in (case py_bytes [0x30, 0x31, 0x30, ilb] of
                Inl e \<Rightarrow> Inl e
              | Inr der \<Rightarrow>
                  let after_padding = der @ inner_block @ [0x04, 0x20] @ chash;
                      sep = int (length (header @ padding));
                      inner_start = sep + 4 + 1;
                      inner_end = inner_start + INNER_BLOCK_REAL_LEN
                  in Inr \<lparr> firmware_data = fw,
                           padding_type = pt,
                           inner_block_len_byte = ilb,
                           raw = py_slice (header @ padding @ separator @ after_padding) 0 TOTAL_BLOCK_SIZE,
                           off_byte0 = 0,
                           off_byte1 = 1,
                           off_padding_start = 2,
                           off_padding_end = (if padding \<noteq> [] then int (length (header @ padding)) - 1 else 1),
                           off_separator = sep,
                           off_30_1 = sep + 1,
                           off_31 = sep + 2,
                           off_30_2 = sep + 3,
                           off_0d = sep + 4,
                           off_inner_start = inner_start,
                           off_inner_end = inner_end,
                           off_04 = inner_end,
                           off_20 = inner_end + 1,
                           off_correct_hash = inner_end + 2,
                           off_calc_hash = inner_end + 2 + HASH_LEN,
                           correct_hash = chash,
                           calculated_hash = chash \<rparr>))"

text \<open>\<^verbatim>\<open>SignatureBlock.__init__\<close>: the override replaces the real length 13 when given.\<close>

definition SignatureBlock_init :: "byte list \<Rightarrow> int \<Rightarrow> int option \<Rightarrow> error + SignatureBlock" where
  "SignatureBlock_init fw pt ov =
     SignatureBlock_build fw pt (case ov of None \<Rightarrow> INNER_BLOCK_REAL_LEN | Some v \<Rightarrow> v)"

section \<open>Formatting\<close>

text \<open>
  \<^verbatim>\<open>format(n, 'X')\<close> and \<^verbatim>\<open>format(n, '0wX')\<close> for a non-negative integer,
  \<^verbatim>\<open>bytes.hex()\<close>, \<^verbatim>\<open>str.upper()\<close> on ASCII text, \<^verbatim>\<open>format(s, '<w')\<close>
  and \<^verbatim>\<open>sep.join(parts)\<close>.
\<close>

definition hexdigit_upper :: "nat \<Rightarrow> char" where
  "hexdigit_upper n = ''0123456789ABCDEF'' ! n"

definition hexdigit_lower :: "nat \<Rightarrow> char" where
  "hexdigit_lower n = ''0123456789abcdef'' ! n"

fun to_hex_upper :: "nat \<Rightarrow> string" where
  "to_hex_upper n =
     (if n < 16 then [hexdigit_upper n] else to_hex_upper (n div 16) @ [hexdigit_upper (n mod 16)])"

declare to_hex_upper.simps [simp del]

definition fmt_0X :: "nat \<Rightarrow> nat \<Rightarrow> string" where
  "fmt_0X w n = (let s = to_hex_upper n in replicate (w - length s) CHR ''0'' @ s)"

definition bytes_hex :: "byte list \<Rightarrow> string" where
  "bytes_hex bs = concat (map (\<lambda>b. [hexdigit_lower (unat b div 16), hexdigit_lower (unat b mod 16)]) bs)"

definition upper_char :: "char \<Rightarrow> char" where
  "upper_char c =
     (if (of_char CHR ''a'' :: nat) \<le> of_char c \<and> (of_char c :: nat) \<le> of_char CHR ''z''
      then char_of ((of_char c :: nat) - 32) else c)"

definition str_upper :: "string \<Rightarrow> string" where
  "str_upper s = map upper_char s"

definition ljust :: "string \<Rightarrow> nat \<Rightarrow> string" where
  "ljust s w = s @ replicate (w - length s) CHR '' ''"

fun join :: "string \<Rightarrow> string list \<Rightarrow> string" where
  "join sep [] = []"
| "join sep [x] = x"
| "join sep (x # y # ys) = x @ sep @ join sep (y # ys)"

section \<open>Trace steps\<close>

text \<open>
  A step is a Python dictionary. The fields kept are the ones that a branch of the engine
  or of its callers reads: \<^verbatim>\<open>id\<close>, \<^verbatim>\<open>ok\<close>, \<^verbatim>\<open>tag\<close>, \<^verbatim>\<open>fatal\<close>, \<^verbatim>\<open>vuln\<close>,
  \<^verbatim>\<open>hex_block\<close>, \<^verbatim>\<open>pointer_at\<close>, \<^verbatim>\<open>pointer_lands\<close>, and of \<^verbatim>\<open>vals\<close> the entries
  that show a digest. \<^verbatim>\<open>fatal\<close>, \<^verbatim>\<open>vuln\<close> and the pointers are keys that many steps do
  not have: \<open>None\<close> is the absent key. The title, the description, the captions of
  \<^verbatim>\<open>vals\<close> and the highlight colours are display text and are left out; the tag
  \<^verbatim>\<open>'VERIFIED'\<close> with its check mark is the constructor \<open>VERIFIED\<close>.
\<close>

datatype tag = INFO | PASS | FAIL | VERIFIED | EXPLOIT | VULN | PWNED

record step =
  step_id :: nat
  ok :: bool
  tag :: tag
  fatal :: "bool option"
  vuln :: "bool option"
  vals :: "(string \<times> string) list"
  hex_block :: "byte list option"
  pointer_at :: "int option"
  pointer_lands :: "int option"

definition mk_step :: "nat \<Rightarrow> bool \<Rightarrow> tag \<Rightarrow> (string \<times> string) list \<Rightarrow> step" where
  "mk_step i o_k t vs =
     \<lparr> step_id = i, ok = o_k, tag = t, fatal = None, vuln = None, vals = vs,
       hex_block = None, pointer_at = None, pointer_lands = None \<rparr>"

section \<open>The legitimate trace\<close>

text \<open>
  The body of \<^verbatim>\<open>bootrom_verify_correct\<close> after its first line, with the block as an
  argument: what the parser does on the block that it is given.
\<close>

definition verify_correct_steps :: "SignatureBlock \<Rightarrow> byte list \<Rightarrow> error + step list" where
  "verify_correct_steps blk firmware =
    (let steps0 = [mk_step 0 True INFO [(''SHA-256(FIRM)'', str_upper (bytes_hex (sha256 firmware)))]];
         steps1 = steps0 @ [mk_step 1 True INFO [] \<lparr> hex_block := Some (raw blk) \<rparr>]
     in case py_index (raw blk) (off_byte0 blk) of Inl e \<Rightarrow> Inl e | Inr b0 \<Rightarrow>
    (let b0_ok = (b0 = 0x00);
         steps2 = steps1 @ [mk_step 2 b0_ok (if b0_ok then PASS else FAIL) []
                    \<lparr> fatal := Some (\<not> b0_ok), hex_block := Some (raw blk),
                      pointer_at := Some (off_byte0 blk) \<rparr>]
     in if \<not> b0_ok then Inr steps2 else
        case py_index (raw blk) (off_byte1 blk) of Inl e \<Rightarrow> Inl e | Inr b1 \<Rightarrow>
    (let padding_exists = (b1 = 0x01);
         steps3 = steps2 @ [mk_step 3 True PASS []
                    \<lparr> hex_block := Some (raw blk), pointer_at := Some (off_byte1 blk) \<rparr>];
         pad_data = py_slice (raw blk) (off_padding_start blk) (off_separator blk);
         pad_ok = list_all (\<lambda>b. b = 0xFF) pad_data;
         checked = (padding_exists \<and> off_padding_start blk < off_separator blk);
         steps4 = (if checked
                   then steps3 @ [mk_step 4 pad_ok (if pad_ok then PASS else FAIL) []
                          \<lparr> fatal := Some (\<not> pad_ok), hex_block := Some (raw blk),
                            pointer_at := Some (off_padding_start blk) \<rparr>]
                   else steps3)
     in if checked \<and> \<not> pad_ok then Inr steps4 else
        case py_index (raw blk) (off_separator blk) of Inl e \<Rightarrow> Inl e | Inr sep \<Rightarrow>
    (let sep_ok = (sep = 0x00);
         steps5 = steps4 @ [mk_step 5 sep_ok (if sep_ok then PASS else FAIL) []
                    \<lparr> fatal := Some (\<not> sep_ok), hex_block := Some (raw blk),
                      pointer_at := Some (off_separator blk) \<rparr>]
     in if \<not> sep_ok then Inr steps5 else
        case py_index (raw blk) (off_30_1 blk) of Inl e \<Rightarrow> Inl e | Inr b30a \<Rightarrow>
        case py_index (raw blk) (off_31 blk) of Inl e \<Rightarrow> Inl e | Inr b31 \<Rightarrow>
        case py_index (raw blk) (off_30_2 blk) of Inl e \<Rightarrow> Inl e | Inr b30b \<Rightarrow>
    (let steps6 = steps5 @ [mk_step 6 (b30a = 0x30 \<and> b30b = 0x30) PASS []
                    \<lparr> hex_block := Some (raw blk), pointer_at := Some (off_30_1 blk) \<rparr>]
     in case py_index (raw blk) (off_0d blk) of Inl e \<Rightarrow> Inl e | Inr od_val \<Rightarrow>
    (let steps7 = steps6 @ [mk_step 7 True INFO []
                    \<lparr> hex_block := Some (raw blk), pointer_at := Some (off_0d blk) \<rparr>]
     in case (if off_04 blk < int (length (raw blk)) then py_index (raw blk) (off_04 blk) else Inr 0)
        of Inl e \<Rightarrow> Inl e | Inr b04 \<Rightarrow>
        case (if off_20 blk < int (length (raw blk)) then py_index (raw blk) (off_20 blk) else Inr 0)
        of Inl e \<Rightarrow> Inl e | Inr b20 \<Rightarrow>
    (let steps8 = steps7 @ [mk_step 8 True INFO []
                    \<lparr> hex_block := Some (raw blk), pointer_at := Some (off_04 blk) \<rparr>];
         c_hash = py_slice (raw blk) (off_correct_hash blk) (off_correct_hash blk + HASH_LEN);
         calc_hash = sha256 firmware;
         match = (c_hash = calc_hash)
     in Inr (steps8 @ [mk_step 9 match (if match then VERIFIED else FAIL)
                         [(''correct_hash'', str_upper (bytes_hex c_hash)),
                          (''calculated_hash'', str_upper (bytes_hex calc_hash))]
                    \<lparr> fatal := Some (\<not> match), hex_block := Some (raw blk),
                      pointer_at := Some (off_correct_hash blk) \<rparr>]))))))))"

text \<open>\<^verbatim>\<open>bootrom_verify_correct\<close>: build the padded block of the firmware, then parse it.\<close>

definition bootrom_verify_correct :: "byte list \<Rightarrow> error + step list" where
  "bootrom_verify_correct firmware =
     (case SignatureBlock_init firmware 0x01 None of
        Inl e \<Rightarrow> Inl e
      | Inr blk \<Rightarrow> verify_correct_steps blk firmware)"

section \<open>Forging and the adversarial trace\<close>

record forge_info =
  original_0d :: int
  forged_0d :: int
  info_off_0d :: int
  off_correct :: int
  off_calc :: int
  hash_len :: int
  evil_hash :: "byte list"
  skip_lands_at :: int

text \<open>
  \<^verbatim>\<open>forge_sighax\<close>: a probe block with the normal skip gives the offsets, and the forged
  block is built with the skip that reaches the hash field.
\<close>

definition forge_sighax :: "byte list \<Rightarrow> error + SignatureBlock \<times> forge_info" where
  "forge_sighax evil_firmware =
     (case SignatureBlock_init evil_firmware 0x02 (Some 13) of
        Inl e \<Rightarrow> Inl e
      | Inr blk_temp \<Rightarrow>
          let needed_skip = off_correct_hash blk_temp - off_inner_start blk_temp
          in (case SignatureBlock_init evil_firmware 0x02 (Some needed_skip) of
                Inl e \<Rightarrow> Inl e
              | Inr blk_forged \<Rightarrow>
                  Inr (blk_forged,
                       \<lparr> original_0d = 13,
                         forged_0d = needed_skip,
                         info_off_0d = off_0d blk_forged,
                         off_correct = off_correct_hash blk_forged,
                         off_calc = off_calc_hash blk_forged,
                         hash_len = HASH_LEN,
                         evil_hash = sha256 evil_firmware,
                         skip_lands_at = off_inner_start blk_forged + needed_skip \<rparr>)))"

definition key_correct_hash_read :: string where
  "key_correct_hash_read = [CHR 0x22] @ ''correct_hash'' @ [CHR 0x22] @ '' le'' @ [CHR 0xC3, CHR 0xAD] @ ''do''"

definition key_correct_hash_quoted :: string where
  "key_correct_hash_quoted = [CHR 0x22] @ ''correct_hash'' @ [CHR 0x22]"

definition key_calculated_hash_quoted :: string where
  "key_calculated_hash_quoted = [CHR 0x22] @ ''calculated_hash'' @ [CHR 0x22]"

text \<open>
  The locals \<^verbatim>\<open>lands_at\<close> and \<^verbatim>\<open>outside\<close> of \<^verbatim>\<open>bootrom_verify_vulnerable\<close>:
  where the forged skip puts the cursor, and the offset after the 32 bytes read there.
\<close>

definition lands_at_of :: "forge_info \<Rightarrow> int" where
  "lands_at_of info = skip_lands_at info"

definition outside_of :: "forge_info \<Rightarrow> int" where
  "outside_of info = lands_at_of info + HASH_LEN"

text \<open>
  \<^verbatim>\<open>bootrom_verify_vulnerable\<close>. It appends eight steps and has no early return; the
  reads of \<^verbatim>\<open>blk.raw\<close> are the only places where it can raise. The firmware argument
  is not used by the body.
\<close>

definition bootrom_verify_vulnerable ::
    "SignatureBlock \<Rightarrow> byte list \<Rightarrow> forge_info \<Rightarrow> error + step list" where
  "bootrom_verify_vulnerable blk evil_firmware info =
    (let e_hash = evil_hash info;
         lands_at = lands_at_of info;
         outside = outside_of info;
         steps0 = [mk_step 0 True INFO [(''SHA-256(evil)'', str_upper (bytes_hex e_hash))]];
         steps1 = steps0 @ [mk_step 1 True EXPLOIT []
                    \<lparr> vuln := Some True, hex_block := Some (raw blk) \<rparr>]
     in case py_index (raw blk) (off_byte0 blk) of Inl e \<Rightarrow> Inl e | Inr b0 \<Rightarrow>
        case py_index (raw blk) (off_byte1 blk) of Inl e \<Rightarrow> Inl e | Inr b1 \<Rightarrow>
    (let steps2 = steps1 @ [mk_step 2 True VULN []
                    \<lparr> vuln := Some True, hex_block := Some (raw blk),
                      pointer_at := Some (off_byte0 blk) \<rparr>]
     in case py_index (raw blk) (off_0d blk) of Inl e \<Rightarrow> Inl e | Inr next_byte \<Rightarrow>
    (let steps3 = steps2 @ [mk_step 3 True INFO []
                    \<lparr> hex_block := Some (raw blk), pointer_at := Some (off_separator blk) \<rparr>]
     in case py_index (raw blk) (off_0d blk) of Inl e \<Rightarrow> Inl e | Inr od_val \<Rightarrow>
    (let steps4 = steps3 @ [mk_step 4 True VULN []
                    \<lparr> vuln := Some True, hex_block := Some (raw blk),
                      pointer_at := Some (off_0d blk), pointer_lands := Some lands_at \<rparr>];
         read_hash = (if lands_at + HASH_LEN \<le> int (length (raw blk))
                      then str_upper (bytes_hex (py_slice (raw blk) lands_at (lands_at + HASH_LEN)))
                      else str_upper (bytes_hex e_hash));
         steps5 = steps4 @ [mk_step 5 True EXPLOIT [(key_correct_hash_read, read_hash)]
                    \<lparr> vuln := Some True, hex_block := Some (raw blk),
                      pointer_at := Some lands_at \<rparr>];
         steps6 = steps5 @ [mk_step 6 True EXPLOIT
                              [(''SHA-256(FIRM evil)'', str_upper (bytes_hex e_hash))]
                    \<lparr> vuln := Some True, hex_block := Some (raw blk) \<rparr>];
         steps7 = steps6 @ [mk_step 7 True PWNED
                              [(key_correct_hash_quoted, str_upper (bytes_hex e_hash)),
                               (key_calculated_hash_quoted, str_upper (bytes_hex e_hash))]
                    \<lparr> vuln := Some True, hex_block := Some (raw blk) \<rparr>]
     in Inr steps7))))"

section \<open>hex_dump\<close>

definition hex_line :: "nat \<Rightarrow> nat \<Rightarrow> byte list \<Rightarrow> string" where
  "hex_line cols i chunk =
     (let h = join '' '' (map (\<lambda>b. fmt_0X 2 (unat b)) chunk);
          a = map (\<lambda>b. if 32 \<le> unat b \<and> unat b < 127 then char_of (unat b) else CHR ''.'') chunk
      in fmt_0X 4 i @ ''  '' @ ljust h (cols * 3) @ ''  '' @ a)"

text \<open>The loop \<^verbatim>\<open>for i in range(0, len(data), cols)\<close> with \<^verbatim>\<open>chunk = data[i:i+cols]\<close>.\<close>

function hex_rows :: "nat \<Rightarrow> nat \<Rightarrow> byte list \<Rightarrow> string list" where
  "hex_rows cols i rest =
     (if rest = [] \<or> cols = 0 then []
      else hex_line cols i (take cols rest) # hex_rows cols (i + cols) (drop cols rest))"
  by pat_completeness auto
termination
  by (relation "measure (\<lambda>(cols, i, rest). length rest)") auto

declare hex_rows.simps [simp del]

text \<open>
  \<^verbatim>\<open>range\<close> raises ValueError on a zero step and is empty on a negative one.
\<close>

definition hex_dump :: "byte list \<Rightarrow> int \<Rightarrow> error + string" where
  "hex_dump data cols =
     (if cols = 0 then Inl ValueError
      else if cols < 0 then Inr []
      else Inr (join [CHR 0x0A] (hex_rows (nat cols) 0 data)))"

section \<open>Reading a dump back\<close>

text \<open>
  The reader that the round trip of the dump is stated with: split the text at the line
  breaks, drop the offset column and its two spaces, keep the \<open>3 * cols\<close> characters of
  the hex columns, and read them as \<^verbatim>\<open>bytes.fromhex\<close> does (spaces skipped, two hex
  digits per byte, anything else is a failure).
\<close>

fun split_on :: "char \<Rightarrow> string \<Rightarrow> string list" where
  "split_on c [] = [[]]"
| "split_on c (x # xs) =
     (if x = c then [] # split_on c xs
      else (case split_on c xs of [] \<Rightarrow> [[x]] | l # ls \<Rightarrow> (x # l) # ls))"

definition unhex_char :: "char \<Rightarrow> nat option" where
  "unhex_char c =
     (let n = (of_char c :: nat)
      in if 48 \<le> n \<and> n \<le> 57 then Some (n - 48)
         else if 65 \<le> n \<and> n \<le> 70 then Some (n - 55)
         else if 97 \<le> n \<and> n \<le> 102 then Some (n - 87)
         else None)"

fun fromhex :: "string \<Rightarrow> byte list option" where
  "fromhex [] = Some []"
| "fromhex [c] = (if c = CHR '' '' then Some [] else None)"
| "fromhex (c # d # r) =
     (if c = CHR '' '' then fromhex (d # r)
      else (case (unhex_char c, unhex_char d, fromhex r) of
              (Some hi, Some lo, Some bs) \<Rightarrow> Some (word_of_nat (16 * hi + lo) # bs)
            | _ \<Rightarrow> None))"

definition parse_row :: "nat \<Rightarrow> string \<Rightarrow> byte list option" where
  "parse_row cols line =
     fromhex (take (cols * 3) (drop 2 (dropWhile (\<lambda>c. c \<noteq> CHR '' '') line)))"

fun concat_opt :: "'a list option list \<Rightarrow> 'a list option" where
  "concat_opt [] = Some []"
| "concat_opt (None # rs) = None"
| "concat_opt (Some x # rs) = (case concat_opt rs of None \<Rightarrow> None | Some y \<Rightarrow> Some (x @ y))"

definition parse_hex_dump :: "nat \<Rightarrow> string \<Rightarrow> byte list option" where
  "parse_hex_dump cols s = concat_opt (map (parse_row cols) (split_on (CHR 0x0A) s))"

section \<open>Scenarios\<close>

text \<open>
  The offset \<^verbatim>\<open>outside\<close> that the adversarial trace of a firmware works with: the
  forge information goes from \<open>forge_sighax\<close> to \<open>bootrom_verify_vulnerable\<close>.
\<close>

definition exploit_outside :: "byte list \<Rightarrow> error + int" where
  "exploit_outside evil_firmware =
     (case forge_sighax evil_firmware of
        Inl e \<Rightarrow> Inl e
      | Inr (blk, info) \<Rightarrow> Inr (outside_of info))"

section \<open>The layouts, written out\<close>

text \<open>
  The bytes that the builder puts before the digest: for the layout without padding
  (any type other than 0x01) and for the padded one. The lemmas \<open>build_unpadded\<close> and
  \<open>build_padded\<close> below show that these are what \<open>SignatureBlock_build\<close> computes.
\<close>

definition unpadded_prefix :: "int \<Rightarrow> int \<Rightarrow> byte list" where
  "unpadded_prefix pt ilb =
     [0x00, word_of_int pt, 0x00, 0x30, 0x31, 0x30, word_of_int ilb] @ inner_block @ [0x04, 0x20]"

definition padded_prefix :: "int \<Rightarrow> byte list" where
  "padded_prefix ilb =
     [0x00, 0x01] @ replicate 73 0xFF @ [0x00, 0x30, 0x31, 0x30, word_of_int ilb]
       @ inner_block @ [0x04, 0x20]"

definition unpadded_block :: "byte list \<Rightarrow> int \<Rightarrow> int \<Rightarrow> SignatureBlock" where
  "unpadded_block fw pt ilb =
     \<lparr> firmware_data = fw, padding_type = pt, inner_block_len_byte = ilb,
       raw = unpadded_prefix pt ilb @ sha256 fw,
       off_byte0 = 0, off_byte1 = 1, off_padding_start = 2, off_padding_end = 1,
       off_separator = 2, off_30_1 = 3, off_31 = 4, off_30_2 = 5, off_0d = 6,
       off_inner_start = 7, off_inner_end = 20, off_04 = 20, off_20 = 21,
       off_correct_hash = 22, off_calc_hash = 54,
       correct_hash = sha256 fw, calculated_hash = sha256 fw \<rparr>"

definition padded_block :: "byte list \<Rightarrow> int \<Rightarrow> SignatureBlock" where
  "padded_block fw ilb =
     \<lparr> firmware_data = fw, padding_type = 1, inner_block_len_byte = ilb,
       raw = padded_prefix ilb @ sha256 fw,
       off_byte0 = 0, off_byte1 = 1, off_padding_start = 2, off_padding_end = 74,
       off_separator = 75, off_30_1 = 76, off_31 = 77, off_30_2 = 78, off_0d = 79,
       off_inner_start = 80, off_inner_end = 93, off_04 = 93, off_20 = 94,
       off_correct_hash = 95, off_calc_hash = 127,
       correct_hash = sha256 fw, calculated_hash = sha256 fw \<rparr>"

text \<open>The fifteen recorded offsets of a block, in the order in which they are assigned.\<close>

definition offsets :: "SignatureBlock \<Rightarrow> int list" where
  "offsets b =
     [off_byte0 b, off_byte1 b, off_padding_start b, off_padding_end b, off_separator b,
      off_30_1 b, off_31 b, off_30_2 b, off_0d b, off_inner_start b, off_inner_end b,
      off_04 b, off_20 b, off_correct_hash b, off_calc_hash b]"

text \<open>The two upper-case hex digits of a byte: what \<^verbatim>\<open>format(b, '02X')\<close> gives.\<close>

definition hex2 :: "byte \<Rightarrow> string" where
  "hex2 b = [hexdigit_upper (unat b div 16), hexdigit_upper (unat b mod 16)]"

section \<open>Facts about the digest and the layout\<close>

lemma length_digest_bytes: "length (digest_bytes s) = 32"
  by (induction s rule: digest_bytes.induct) (simp add: be32_def)

lemma length_sha256: "length (sha256 msg) = 32"
  by (simp add: sha256_def length_digest_bytes)

lemma length_unpadded_prefix: "length (unpadded_prefix pt ilb) = 22"
  by (simp add: unpadded_prefix_def inner_block_def)

lemma length_padded_prefix: "length (padded_prefix ilb) = 95"
  by (simp add: padded_prefix_def inner_block_def)

lemma py_slice_all: "int (length xs) \<le> n \<Longrightarrow> py_slice xs 0 n = xs"
  by (simp add: py_slice_def py_bound_def)

lemma build_error_pt:
  "pt < 0 \<or> 256 \<le> pt \<Longrightarrow> SignatureBlock_build fw pt ilb = Inl ValueError"
  by (auto simp: SignatureBlock_build_def py_bytes_def)

lemma build_error_ilb:
  "ilb < 0 \<or> 256 \<le> ilb \<Longrightarrow> SignatureBlock_build fw pt ilb = Inl ValueError"
  by (auto simp: SignatureBlock_build_def py_bytes_def Let_def split: sum.splits)

lemma build_unpadded:
  assumes "0 \<le> pt" "pt < 256" "pt \<noteq> 1" "0 \<le> ilb" "ilb < 256"
  shows "SignatureBlock_build fw pt ilb = Inr (unpadded_block fw pt ilb)"
  using assms
  by (simp add: SignatureBlock_build_def py_bytes_def Let_def unpadded_prefix_def inner_block_def
      py_slice_all length_sha256 INNER_BLOCK_REAL_LEN_def HASH_LEN_def TOTAL_BLOCK_SIZE_def
      unpadded_block_def)

lemma build_padded:
  assumes "0 \<le> ilb" "ilb < 256"
  shows "SignatureBlock_build fw 1 ilb = Inr (padded_block fw ilb)"
  using assms
  by (simp add: SignatureBlock_build_def py_bytes_def Let_def padded_prefix_def inner_block_def
      py_slice_all length_sha256 INNER_BLOCK_REAL_LEN_def HASH_LEN_def TOTAL_BLOCK_SIZE_def
      py_repeat_def padded_block_def)

lemma build_Inr:
  assumes "SignatureBlock_build fw pt ilb = Inr b"
  shows "0 \<le> pt \<and> pt < 256 \<and> 0 \<le> ilb \<and> ilb < 256 \<and>
         b = (if pt = 1 then padded_block fw ilb else unpadded_block fw pt ilb)"
proof -
  have pt: "0 \<le> pt \<and> pt < 256"
    using assms build_error_pt [of pt fw ilb] by (cases "pt < 0 \<or> 256 \<le> pt") auto
  have ilb: "0 \<le> ilb \<and> ilb < 256"
    using assms build_error_ilb [of ilb fw pt] by (cases "ilb < 0 \<or> 256 \<le> ilb") auto
  show ?thesis
  proof (cases "pt = 1")
    case True
    then show ?thesis using assms pt ilb build_padded [of ilb fw] by simp
  next
    case False
    then show ?thesis using assms pt ilb build_unpadded [of pt ilb fw] by simp
  qed
qed

lemma init_None: "SignatureBlock_init fw pt None = SignatureBlock_build fw pt 13"
  by (simp add: SignatureBlock_init_def INNER_BLOCK_REAL_LEN_def)

lemma init_Some: "SignatureBlock_init fw pt (Some v) = SignatureBlock_build fw pt v"
  by (simp add: SignatureBlock_init_def)

lemma init_Inr:
  assumes "SignatureBlock_init fw pt ov = Inr b"
  shows "\<exists>ilb. 0 \<le> pt \<and> pt < 256 \<and> 0 \<le> ilb \<and> ilb < 256 \<and>
           ilb = (case ov of None \<Rightarrow> 13 | Some v \<Rightarrow> v) \<and>
           b = (if pt = 1 then padded_block fw ilb else unpadded_block fw pt ilb)"
  using build_Inr [of fw pt "case ov of None \<Rightarrow> 13 | Some v \<Rightarrow> v" b] assms
  by (cases ov) (simp_all add: init_None init_Some)

lemma init_byte0:
  assumes "SignatureBlock_init fw pt ov = Inr b"
  shows "off_byte0 b = 0 \<and> raw b \<noteq> [] \<and> raw b ! 0 = 0x00"
proof -
  from init_Inr [OF assms] obtain ilb
    where "b = (if pt = 1 then padded_block fw ilb else unpadded_block fw pt ilb)"
    by blast
  then show ?thesis
    by (simp add: padded_block_def unpadded_block_def padded_prefix_def unpadded_prefix_def)
qed

lemma offsets_unpadded:
  "offsets (unpadded_block fw pt ilb) = [0, 1, 2, 1, 2, 3, 4, 5, 6, 7, 20, 20, 21, 22, 54]"
  by (simp add: offsets_def unpadded_block_def)

lemma offsets_padded:
  "offsets (padded_block fw ilb) = [0, 1, 2, 74, 75, 76, 77, 78, 79, 80, 93, 93, 94, 95, 127]"
  by (simp add: offsets_def padded_block_def)

section \<open>Facts about indexing and slicing the built blocks\<close>

lemma py_index_app_left:
  "0 \<le> i \<Longrightarrow> nat i < length xs \<Longrightarrow> py_index (xs @ ys) i = Inr (xs ! nat i)"
  by (simp add: py_index_def Let_def nth_append)

lemma py_slice_drop_prefix:
  "i = int (length xs) \<Longrightarrow> j = i + int (length ys) \<Longrightarrow> py_slice (xs @ ys) i j = ys"
  by (simp add: py_slice_def py_bound_def Let_def)

lemma padded_pad_run:
  "py_slice (padded_prefix ilb @ ys) 2 75 = replicate 73 0xFF"
  by (simp add: py_slice_def py_bound_def Let_def padded_prefix_def inner_block_def)

lemma padded_nth:
  "padded_prefix ilb ! 0 = 0" "padded_prefix ilb ! Suc 0 = 1"
  "padded_prefix ilb ! 75 = 0" "padded_prefix ilb ! 76 = 0x30" "padded_prefix ilb ! 77 = 0x31"
  "padded_prefix ilb ! 78 = 0x30" "padded_prefix ilb ! 79 = word_of_int ilb"
  "padded_prefix ilb ! 93 = 0x04" "padded_prefix ilb ! 94 = 0x20"
  by (simp_all add: padded_prefix_def inner_block_def nth_append)

lemma unpadded_nth:
  "unpadded_prefix pt ilb ! 0 = 0" "unpadded_prefix pt ilb ! Suc 0 = word_of_int pt"
  "unpadded_prefix pt ilb ! 6 = word_of_int ilb"
  by (simp_all add: unpadded_prefix_def inner_block_def)

section \<open>Facts about the hex rendering\<close>

lemma less16_cases:
  fixes d :: nat
  assumes "d < 16"
  shows "d \<in> {0, 1, 2, 3, 4, 5, 6, 7, 8, 9, 10, 11, 12, 13, 14, 15}"
proof -
  have "d = 0 \<or> d = 1 \<or> d = 2 \<or> d = 3 \<or> d = 4 \<or> d = 5 \<or> d = 6 \<or> d = 7
      \<or> d = 8 \<or> d = 9 \<or> d = 10 \<or> d = 11 \<or> d = 12 \<or> d = 13 \<or> d = 14 \<or> d = 15"
    using assms by arith
  then show ?thesis by blast
qed

lemma hexdigit_upper_of_lower:
  assumes "n < 16"
  shows "upper_char (hexdigit_lower n) = hexdigit_upper n"
  using less16_cases [OF assms]
  by (auto simp: hexdigit_lower_def hexdigit_upper_def upper_char_def char_of_def bit_Suc_0_iff)

lemma hexdigit_upper_mem: "n < 16 \<Longrightarrow> hexdigit_upper n \<in> set ''0123456789ABCDEF''"
  unfolding hexdigit_upper_def by (rule nth_mem) simp

lemma unat_byte_less: "unat (b :: byte) < 256"
  using unsigned_less [of b, where ?'a = nat] by simp

lemma unat_byte_div16: "unat (b :: byte) div 16 < 16"
  using unat_byte_less [of b] by simp

lemma length_hex_upper: "length (str_upper (bytes_hex bs)) = 2 * length bs"
  by (induction bs) (simp_all add: str_upper_def bytes_hex_def)

lemma set_hex_upper: "set (str_upper (bytes_hex bs)) \<subseteq> set ''0123456789ABCDEF''"
proof (induction bs)
  case Nil
  then show ?case by (simp add: str_upper_def bytes_hex_def)
next
  case (Cons b bs)
  have "upper_char (hexdigit_lower (unat b div 16)) \<in> set ''0123456789ABCDEF''"
    using hexdigit_upper_mem [of "unat b div 16"] unat_byte_div16 [of b]
    by (simp add: hexdigit_upper_of_lower)
  moreover have "upper_char (hexdigit_lower (unat b mod 16)) \<in> set ''0123456789ABCDEF''"
    using hexdigit_upper_mem [of "unat b mod 16"]
    by (simp add: hexdigit_upper_of_lower)
  ultimately show ?case
    using Cons by (simp add: str_upper_def bytes_hex_def)
qed

section \<open>The two traces, step by step\<close>

lemma verify_correct_padded:
  fixes fw ilb
  defines "blk \<equiv> padded_block fw ilb"
  defines "h \<equiv> str_upper (bytes_hex (sha256 fw))"
  shows "verify_correct_steps blk fw =
     Inr [mk_step 0 True INFO [(''SHA-256(FIRM)'', h)],
          mk_step 1 True INFO [] \<lparr> hex_block := Some (raw blk) \<rparr>,
          mk_step 2 True PASS []
            \<lparr> fatal := Some False, hex_block := Some (raw blk), pointer_at := Some 0 \<rparr>,
          mk_step 3 True PASS [] \<lparr> hex_block := Some (raw blk), pointer_at := Some 1 \<rparr>,
          mk_step 4 True PASS []
            \<lparr> fatal := Some False, hex_block := Some (raw blk), pointer_at := Some 2 \<rparr>,
          mk_step 5 True PASS []
            \<lparr> fatal := Some False, hex_block := Some (raw blk), pointer_at := Some 75 \<rparr>,
          mk_step 6 True PASS [] \<lparr> hex_block := Some (raw blk), pointer_at := Some 76 \<rparr>,
          mk_step 7 True INFO [] \<lparr> hex_block := Some (raw blk), pointer_at := Some 79 \<rparr>,
          mk_step 8 True INFO [] \<lparr> hex_block := Some (raw blk), pointer_at := Some 93 \<rparr>,
          mk_step 9 True VERIFIED [(''correct_hash'', h), (''calculated_hash'', h)]
            \<lparr> fatal := Some False, hex_block := Some (raw blk), pointer_at := Some 95 \<rparr>]"
  unfolding blk_def h_def verify_correct_steps_def padded_block_def
  by (simp add: Let_def py_index_app_left length_padded_prefix padded_nth padded_pad_run
        py_slice_drop_prefix length_sha256 HASH_LEN_def list_all_iff)

lemma bootrom_verify_correct_eq:
  "bootrom_verify_correct fw = verify_correct_steps (padded_block fw 13) fw"
  by (simp add: bootrom_verify_correct_def init_None build_padded)

lemma forge_sighax_eq:
  "forge_sighax F =
     Inr (unpadded_block F 2 15,
          \<lparr> original_0d = 13, forged_0d = 15, info_off_0d = 6, off_correct = 22, off_calc = 54,
            hash_len = 32, evil_hash = sha256 F, skip_lands_at = 22 \<rparr>)"
  by (simp add: forge_sighax_def init_Some build_unpadded Let_def unpadded_block_def HASH_LEN_def)

lemma verify_vulnerable_unpadded:
  fixes F
  defines "blk \<equiv> unpadded_block F 2 15"
  defines "h \<equiv> str_upper (bytes_hex (sha256 F))"
  defines "info \<equiv> \<lparr> original_0d = 13, forged_0d = 15, info_off_0d = 6, off_correct = 22,
            off_calc = 54, hash_len = 32, evil_hash = sha256 F, skip_lands_at = 22 \<rparr>"
  shows "bootrom_verify_vulnerable blk F info =
     Inr [mk_step 0 True INFO [(''SHA-256(evil)'', h)],
          mk_step 1 True EXPLOIT [] \<lparr> vuln := Some True, hex_block := Some (raw blk) \<rparr>,
          mk_step 2 True VULN []
            \<lparr> vuln := Some True, hex_block := Some (raw blk), pointer_at := Some 0 \<rparr>,
          mk_step 3 True INFO [] \<lparr> hex_block := Some (raw blk), pointer_at := Some 2 \<rparr>,
          mk_step 4 True VULN []
            \<lparr> vuln := Some True, hex_block := Some (raw blk), pointer_at := Some 6,
              pointer_lands := Some 22 \<rparr>,
          mk_step 5 True EXPLOIT [(key_correct_hash_read, h)]
            \<lparr> vuln := Some True, hex_block := Some (raw blk), pointer_at := Some 22 \<rparr>,
          mk_step 6 True EXPLOIT [(''SHA-256(FIRM evil)'', h)]
            \<lparr> vuln := Some True, hex_block := Some (raw blk) \<rparr>,
          mk_step 7 True PWNED [(key_correct_hash_quoted, h), (key_calculated_hash_quoted, h)]
            \<lparr> vuln := Some True, hex_block := Some (raw blk) \<rparr>]"
  unfolding blk_def h_def info_def bootrom_verify_vulnerable_def unpadded_block_def
  by (simp add: Let_def py_index_app_left length_unpadded_prefix unpadded_nth
        py_slice_drop_prefix length_sha256 HASH_LEN_def lands_at_of_def outside_of_def)

lemma raw_unpadded: "raw (unpadded_block fw pt ilb) = unpadded_prefix pt ilb @ sha256 fw"
  by (simp add: unpadded_block_def)

lemma raw_padded: "raw (padded_block fw ilb) = padded_prefix ilb @ sha256 fw"
  by (simp add: padded_block_def)

lemma length_raw_unpadded: "length (raw (unpadded_block fw pt ilb)) = 54"
  by (simp add: raw_unpadded length_unpadded_prefix length_sha256)

lemma length_raw_padded: "length (raw (padded_block fw ilb)) = 127"
  by (simp add: raw_padded length_padded_prefix length_sha256)

lemma word_of_int_byte_eq:
  "0 \<le> v \<Longrightarrow> v < 256 \<Longrightarrow> 0 \<le> w \<Longrightarrow> w < 256 \<Longrightarrow>
     ((word_of_int v :: byte) = word_of_int w) = (v = w)"
  by (simp add: word_of_int_eq_iff take_bit_int_eq_self)

lemma raw_unpadded_update:
  "(raw (unpadded_block F pt a)) [6 := word_of_int v] = raw (unpadded_block F pt v)"
  by (simp add: unpadded_block_def unpadded_prefix_def)

lemma raw_padded_update:
  "(raw (padded_block F a)) [79 := word_of_int v] = raw (padded_block F v)"
  by (simp add: padded_block_def padded_prefix_def list_update_append)

section \<open>Facts about the dump and its reader\<close>

lemma split_on_nonempty: "split_on c s \<noteq> []"
  by (induction s) (auto split: list.splits)

lemma split_on_no_sep: "c \<notin> set x \<Longrightarrow> split_on c x = [x]"
  by (induction x) auto

lemma split_on_append: "c \<notin> set x \<Longrightarrow> split_on c (x @ c # r) = x # split_on c r"
  by (induction x) (auto split: list.splits simp: split_on_nonempty)

lemma split_on_join:
  "ls \<noteq> [] \<Longrightarrow> \<forall>l \<in> set ls. c \<notin> set l \<Longrightarrow> split_on c (join [c] ls) = ls"
proof (induction ls rule: induct_list012)
  case 1
  then show ?case by simp
next
  case (2 x)
  then show ?case by (simp add: split_on_no_sep)
next
  case (3 x y zs)
  then show ?case by (simp add: split_on_append)
qed

lemma set_to_hex_upper: "set (to_hex_upper n) \<subseteq> set ''0123456789ABCDEF''"
proof (induction n rule: to_hex_upper.induct)
  case (1 n)
  show ?case
  proof (cases "n < 16")
    case True
    then show ?thesis
      using hexdigit_upper_mem [of n] by (subst to_hex_upper.simps) simp
  next
    case False
    then show ?thesis
      using 1 hexdigit_upper_mem [of "n mod 16"] by (subst to_hex_upper.simps) simp
  qed
qed

lemma set_fmt_0X: "set (fmt_0X w n) \<subseteq> set ''0123456789ABCDEF''"
  using set_to_hex_upper [of n] by (auto simp: fmt_0X_def Let_def)

lemma fmt_0X_2_byte:
  assumes "n < 256"
  shows "fmt_0X 2 n = [hexdigit_upper (n div 16), hexdigit_upper (n mod 16)]"
proof (cases "n < 16")
  case True
  then show ?thesis
    by (simp add: fmt_0X_def to_hex_upper.simps [of n] hexdigit_upper_def)
next
  case False
  then have "n div 16 < 16" using assms by simp
  then show ?thesis using False
    by (simp add: fmt_0X_def to_hex_upper.simps [of n] to_hex_upper.simps [of "n div 16"])
qed

lemma unhex_hexdigit_upper:
  assumes "n < 16"
  shows "unhex_char (hexdigit_upper n) = Some n"
  using less16_cases [OF assms]
  by (auto simp: hexdigit_upper_def unhex_char_def)

lemma hexdigit_upper_not_space:
  assumes "n < 16"
  shows "hexdigit_upper n \<noteq> CHR '' ''"
  using hexdigit_upper_mem [OF assms] by auto


lemma fmt_0X_2_unat: "fmt_0X 2 (unat (b :: byte)) = hex2 b"
  using fmt_0X_2_byte [of "unat b"] unat_byte_less [of b] by (simp add: hex2_def)

lemma byte_of_nibbles: "(word_of_nat (16 * (unat b div 16) + unat b mod 16) :: byte) = b"
  by simp

lemma fromhex_space: "fromhex (CHR '' '' # r) = fromhex r"
  by (cases r) simp_all

lemma fromhex_spaces: "fromhex (replicate k CHR '' '') = Some []"
  by (induction k) (simp_all add: fromhex_space)

lemma fromhex_hex2:
  "fromhex (hex2 b @ r) = (case fromhex r of None \<Rightarrow> None | Some bs \<Rightarrow> Some (b # bs))"
  using unat_byte_div16 [of b]
  by (simp add: hex2_def unhex_hexdigit_upper hexdigit_upper_not_space byte_of_nibbles
        split: option.splits)

lemma fromhex_joined:
  "fromhex (join '' '' (map hex2 chunk) @ replicate k CHR '' '') = Some chunk"
proof (induction chunk rule: induct_list012)
  case 1
  then show ?case by (simp add: fromhex_spaces)
next
  case (2 b)
  then show ?case by (simp add: fromhex_hex2 fromhex_spaces)
next
  case (3 b c bs)
  then show ?case by (simp add: fromhex_hex2 fromhex_space)
qed

lemma length_joined:
  "chunk \<noteq> [] \<Longrightarrow> length (join '' '' (map hex2 chunk)) = 3 * length chunk - 1"
  by (induction chunk rule: induct_list012) (simp_all add: hex2_def)

lemma parse_row_hex_line:
  assumes "chunk \<noteq> []" and "length chunk \<le> cols"
  shows "parse_row cols (hex_line cols i chunk) = Some chunk"
proof -
  let ?h = "join '' '' (map hex2 chunk)"
  let ?a = "map (\<lambda>b. if 32 \<le> unat b \<and> unat b < 127 then char_of (unat b) else CHR ''.'') chunk"
  have line: "hex_line cols i chunk = fmt_0X 4 i @ CHR '' '' # CHR '' '' # ljust ?h (cols * 3) @ ''  '' @ ?a"
    by (simp add: hex_line_def Let_def fmt_0X_2_unat cong: map_cong)
  have nosp: "\<forall>c \<in> set (fmt_0X 4 i). c \<noteq> CHR '' ''"
    using set_fmt_0X [of 4 i] by auto
  have dw: "dropWhile (\<lambda>c. c \<noteq> CHR '' '') (hex_line cols i chunk)
              = CHR '' '' # CHR '' '' # ljust ?h (cols * 3) @ ''  '' @ ?a"
    unfolding line using nosp by (simp add: dropWhile_append3)
  have len: "length ?h \<le> cols * 3"
    using assms by (simp add: length_joined)
  then have lj: "length (ljust ?h (cols * 3)) = cols * 3"
    by (simp add: ljust_def)
  have "parse_row cols (hex_line cols i chunk) = fromhex (ljust ?h (cols * 3))"
    unfolding parse_row_def dw using lj by simp
  also have "\<dots> = Some chunk"
    by (simp add: ljust_def fromhex_joined)
  finally show ?thesis .
qed

lemma parse_rows:
  "0 < cols \<Longrightarrow> concat_opt (map (parse_row cols) (hex_rows cols i rest)) = Some rest"
proof (induction cols i rest rule: hex_rows.induct)
  case (1 cols i rest)
  show ?case
  proof (cases "rest = []")
    case True
    then show ?thesis by (subst hex_rows.simps) simp
  next
    case False
    with 1 have ih: "concat_opt (map (parse_row cols) (hex_rows cols (i + cols) (drop cols rest)))
                       = Some (drop cols rest)"
      by simp
    have "take cols rest \<noteq> []" using False "1.prems" by simp
    then have "parse_row cols (hex_line cols i (take cols rest)) = Some (take cols rest)"
      by (simp add: parse_row_hex_line)
    with ih False "1.prems" show ?thesis
      by (subst hex_rows.simps) simp
  qed
qed

lemma gutter_char_not_newline:
  "CHR 0x0A \<noteq> (if 32 \<le> n \<and> n < 127 then char_of n else CHR ''.'')" for n :: nat
proof (cases "32 \<le> n \<and> n < 127")
  case True
  have "char_of n \<noteq> CHR 0x0A"
  proof
    assume "char_of n = CHR 0x0A"
    then have "(of_char (char_of n :: char) :: nat) = of_char (CHR 0x0A)" by simp
    then have "n mod 256 = 10" by simp
    with True show False by simp
  qed
  with True show ?thesis by auto
next
  case False
  then show ?thesis by auto
qed

lemma newline_not_in_hex_line: "CHR 0x0A \<notin> set (hex_line cols i chunk)"
proof -
  have a: "CHR 0x0A \<notin> set (fmt_0X w n)" for w n
    using set_fmt_0X [of w n] by auto
  have b: "CHR 0x0A \<notin> set (join '' '' (map (\<lambda>b. fmt_0X 2 (unat b)) chunk))"
    using a by (induction chunk rule: induct_list012) simp_all
  have c: "CHR 0x0A \<notin> set (map (\<lambda>b. if 32 \<le> unat b \<and> unat b < 127 then char_of (unat b)
                                     else CHR ''.'') chunk)"
    by (induction chunk) (simp_all add: gutter_char_not_newline)
  show ?thesis
    using a b c by (simp add: hex_line_def Let_def ljust_def)
qed

lemma newline_not_in_hex_rows: "\<forall>l \<in> set (hex_rows cols i rest). CHR 0x0A \<notin> set l"
proof (induction cols i rest rule: hex_rows.induct)
  case (1 cols i rest)
  then show ?case
    by (subst hex_rows.simps) (simp add: newline_not_in_hex_line)
qed

section \<open>The digest model on the standard test vector\<close>

lemma sha256_empty:
  "sha256 [] =
     [0xE3, 0xB0, 0xC4, 0x42, 0x98, 0xFC, 0x1C, 0x14, 0x9A, 0xFB, 0xF4, 0xC8, 0x99, 0x6F, 0xB9, 0x24,
      0x27, 0xAE, 0x41, 0xE4, 0x64, 0x9B, 0x93, 0x4C, 0xA4, 0x95, 0x99, 0x1B, 0x78, 0x52, 0xB8, 0x55]"
  by code_simp

lemma hex_upper_sha256_empty:
  "str_upper (bytes_hex (sha256 [])) =
     ''E3B0C44298FC1C149AFBF4C8996FB92427AE41E4649B934CA495991B7852B855''"
  unfolding sha256_empty by code_simp

section \<open>The claims\<close>

text \<open>
  C1. For every evil firmware, forging a block with \<open>forge_sighax\<close> and tracing it with
  \<open>bootrom_verify_vulnerable\<close> on the forge information returns a trace of exactly eight
  steps, numbered 0 to 7, none of which is fatal or tagged FAIL, and whose last step is
  tagged PWNED (the verdict that the system is compromised). The firmware is arbitrary:
  the empty string and long inputs are included.
\<close>

theorem C1_exploit_trace:
  "\<exists>blk info steps.
       forge_sighax F = Inr (blk, info) \<and> bootrom_verify_vulnerable blk F info = Inr steps \<and>
       length steps = 8 \<and>
       list_all (\<lambda>s. fatal s \<noteq> Some True \<and> tag s \<noteq> FAIL) steps \<and>
       map step_id steps = [0, 1, 2, 3, 4, 5, 6, 7] \<and>
       tag (last steps) = PWNED \<and> ok (last steps)"
  by (simp add: forge_sighax_eq verify_vulnerable_unpadded mk_step_def)

theorem C1_exploit_trace_witness:
  "\<exists>blk info steps.
       forge_sighax [] = Inr (blk, info) \<and> bootrom_verify_vulnerable blk [] info = Inr steps \<and>
       length steps = 8 \<and>
       list_all (\<lambda>s. fatal s \<noteq> Some True \<and> tag s \<noteq> FAIL) steps \<and>
       map step_id steps = [0, 1, 2, 3, 4, 5, 6, 7] \<and>
       tag (last steps) = PWNED \<and> ok (last steps)"
  using C1_exploit_trace [of "[]"] .

text \<open>
  C2. For every firmware, \<open>bootrom_verify_correct\<close> returns a trace of exactly ten steps,
  none of which is fatal or tagged FAIL; the last step is tagged VERIFIED, and its values
  hold one and the same string under \<^verbatim>\<open>correct_hash\<close> and \<^verbatim>\<open>calculated_hash\<close>: 64
  characters, each an upper-case hex digit.
\<close>

theorem C2_legitimate_trace:
  "\<exists>steps h. bootrom_verify_correct F = Inr steps \<and> length steps = 10 \<and>
       list_all (\<lambda>s. fatal s \<noteq> Some True \<and> tag s \<noteq> FAIL) steps \<and>
       tag (last steps) = VERIFIED \<and>
       map_of (vals (last steps)) ''correct_hash'' = Some h \<and>
       map_of (vals (last steps)) ''calculated_hash'' = Some h \<and>
       h = str_upper (bytes_hex (sha256 F)) \<and>
       length h = 64 \<and> set h \<subseteq> set ''0123456789ABCDEF''"
proof -
  let ?h = "str_upper (bytes_hex (sha256 F))"
  have "length ?h = 64"
    by (simp add: length_hex_upper length_sha256)
  moreover have "set ?h \<subseteq> set ''0123456789ABCDEF''"
    by (rule set_hex_upper)
  ultimately show ?thesis
    by (simp add: bootrom_verify_correct_eq verify_correct_padded mk_step_def)
qed

theorem C2_legitimate_trace_witness:
  "\<exists>steps. bootrom_verify_correct [] = Inr steps \<and> length steps = 10 \<and>
       tag (last steps) = VERIFIED \<and>
       map_of (vals (last steps)) ''correct_hash''
         = Some ''E3B0C44298FC1C149AFBF4C8996FB92427AE41E4649B934CA495991B7852B855'' \<and>
       map_of (vals (last steps)) ''calculated_hash''
         = Some ''E3B0C44298FC1C149AFBF4C8996FB92427AE41E4649B934CA495991B7852B855''"
  using C2_legitimate_trace [of "[]"] by (auto simp: hex_upper_sha256_empty)

text \<open>
  C3. For every evil firmware, the skip that forging computes (\<^verbatim>\<open>forged_0d\<close>) equals
  \<open>off_correct_hash - off_inner_start\<close> of every block built with the padding type 0x02,
  whatever the firmware and the override of that block; it is the value that the forged
  block carries as its length byte; and forging any other firmware computes the same skip.
\<close>

theorem C3_needed_skip:
  "\<exists>blk info. forge_sighax F1 = Inr (blk, info) \<and>
     (\<forall>Fb ov b. SignatureBlock_init Fb 0x02 ov = Inr b \<longrightarrow>
         forged_0d info = off_correct_hash b - off_inner_start b) \<and>
     (\<forall>F2. \<exists>blk2 info2. forge_sighax F2 = Inr (blk2, info2) \<and> forged_0d info2 = forged_0d info) \<and>
     inner_block_len_byte blk = forged_0d info"
proof -
  have "off_correct_hash b - off_inner_start b = 15"
    if "SignatureBlock_init Fb 0x02 ov = Inr b" for Fb ov b
    using init_Inr [OF that] by (auto simp: unpadded_block_def)
  then show ?thesis
    by (simp add: forge_sighax_eq unpadded_block_def)
qed

theorem C3_needed_skip_witness:
  "\<exists>blk info b. forge_sighax [] = Inr (blk, info) \<and>
       SignatureBlock_init [0x46, 0x49] 0x02 None = Inr b \<and>
       forged_0d info = off_correct_hash b - off_inner_start b \<and>
       forged_0d info = 15"
proof -
  obtain blk info where f: "forge_sighax [] = Inr (blk, info)"
    and h: "\<forall>Fb ov b. SignatureBlock_init Fb 0x02 ov = Inr b \<longrightarrow>
         forged_0d info = off_correct_hash b - off_inner_start b"
    using C3_needed_skip [of "[]"] by blast
  have b: "SignatureBlock_init [0x46, 0x49] 0x02 None = Inr (unpadded_block [0x46, 0x49] 2 13)"
    by (simp add: init_None build_unpadded)
  have "forged_0d info = 15"
    using f by (auto simp: forge_sighax_eq)
  with f h b show ?thesis by blast
qed

text \<open>
  C4, as amended. The claim is that the raw bytes of every built block are exactly 128
  long. The builder only truncates to 128 and never fills up, and a block without padding
  has no bytes to fill with: for every firmware, padding type and override with which a
  block is built, its raw bytes are at most 128 long, and with the padding type 0x02 they
  are exactly 54 long.
\<close>

theorem C4_raw_length:
  "SignatureBlock_init F pt ov = Inr b \<Longrightarrow>
     length (raw b) \<le> 128 \<and> (pt = 0x02 \<longrightarrow> length (raw b) = 54)"
  using init_Inr [of F pt ov b]
  by (auto simp: length_raw_unpadded length_raw_padded)

theorem C4_raw_length_witness:
  "SignatureBlock_init [] 0x02 None = Inr (unpadded_block [] 2 13) \<and>
   length (raw (unpadded_block [] 2 13)) = 54"
proof -
  have b: "SignatureBlock_init [] 0x02 None = Inr (unpadded_block [] 2 13)"
    by (simp add: init_None build_unpadded)
  from C4_raw_length [OF b] show ?thesis using b by simp
qed

text \<open>The block of the empty firmware without padding is 54 bytes long, not 128.\<close>

theorem C4_raw_length_counterexample:
  "map_sum id (length \<circ> raw) (SignatureBlock_init [] 0x02 None) = Inr 54 \<and>
   map_sum id (length \<circ> raw) (SignatureBlock_init [] 0x02 None) \<noteq> Inr 128"
  by (simp add: init_None build_unpadded length_raw_unpadded)

text \<open>
  C5, as amended. The claim is that \<^verbatim>\<open>outside = lands_at + 32\<close> lies outside the nominal
  128-byte block. For every evil firmware the cursor lands at
  \<open>off_inner_start + forged_0d = off_correct_hash\<close> of the forged block, and \<^verbatim>\<open>outside\<close> is
  \<open>off_calc_hash\<close> = 54: the length of the forged block's raw bytes, that is the first
  offset after the bytes that were built. It is below 128.
\<close>

theorem C5_outside:
  "\<exists>blk info. forge_sighax F = Inr (blk, info) \<and>
       lands_at_of info = off_inner_start blk + forged_0d info \<and>
       lands_at_of info = off_correct_hash blk \<and>
       outside_of info = lands_at_of info + 32 \<and>
       outside_of info = off_calc_hash blk \<and>
       outside_of info = int (length (raw blk)) \<and>
       outside_of info = 54"
  by (simp add: forge_sighax_eq lands_at_of_def outside_of_def HASH_LEN_def length_raw_unpadded)
     (simp add: unpadded_block_def)

theorem C5_outside_witness:
  "exploit_outside [] = Inr 54"
  using C5_outside [of "[]"] by (auto simp: exploit_outside_def)

text \<open>For the empty firmware \<^verbatim>\<open>outside\<close> is 54, an offset inside a block of 128 bytes.\<close>

theorem C5_outside_counterexample:
  "exploit_outside [] = Inr 54 \<and> (54 :: int) < TOTAL_BLOCK_SIZE"
  by (simp add: exploit_outside_def forge_sighax_eq outside_of_def lands_at_of_def HASH_LEN_def
        TOTAL_BLOCK_SIZE_def)

text \<open>
  C7, as amended. The claim is that a padding type outside 0x01 and 0x02 makes the builder
  fail with an invalid-argument signal. The builder has no check of the padding type: it
  raises (ValueError) only for a value that is not a byte, below 0 or above 255. A byte
  value other than 0x01 is accepted and laid out as the type 0x02 is: the same offsets and
  the same bytes, but for byte 1, which holds the value given.
\<close>

theorem C7_padding_type_range:
  "(0 \<le> pt \<and> pt < 256 \<and> pt \<noteq> 0x01 \<and> SignatureBlock_init F 0x02 ov = Inr b2 \<longrightarrow>
      (\<exists>b. SignatureBlock_init F pt ov = Inr b \<and> padding_type b = pt \<and>
            offsets b = offsets b2 \<and> raw b = (raw b2) [1 := word_of_int pt])) \<and>
   (pt < 0 \<or> 256 \<le> pt \<longrightarrow> SignatureBlock_init F pt ov = Inl ValueError)"
proof -
  have one: "\<exists>b. SignatureBlock_init F pt ov = Inr b \<and> padding_type b = pt \<and>
            offsets b = offsets b2 \<and> raw b = (raw b2) [1 := word_of_int pt]"
    if a: "0 \<le> pt \<and> pt < 256 \<and> pt \<noteq> 0x01 \<and> SignatureBlock_init F 0x02 ov = Inr b2"
  proof -
    from a init_Inr [of F 2 ov b2] obtain ilb
      where ilb: "0 \<le> ilb" "ilb < 256" "ilb = (case ov of None \<Rightarrow> 13 | Some v \<Rightarrow> v)"
        and b2: "b2 = unpadded_block F 2 ilb"
      by auto
    have "SignatureBlock_init F pt ov = Inr (unpadded_block F pt ilb)"
      using a ilb build_unpadded [of pt ilb F] by (cases ov) (simp_all add: init_None init_Some)
    moreover have "padding_type (unpadded_block F pt ilb) = pt"
      by (simp add: unpadded_block_def)
    moreover have "offsets (unpadded_block F pt ilb) = offsets b2"
      using b2 by (simp add: offsets_unpadded)
    moreover have "raw (unpadded_block F pt ilb) = (raw b2) [1 := word_of_int pt]"
      using b2 by (simp add: raw_unpadded unpadded_prefix_def)
    ultimately show ?thesis by blast
  qed
  have two: "SignatureBlock_init F pt ov = Inl ValueError" if "pt < 0 \<or> 256 \<le> pt"
    using that by (simp add: SignatureBlock_init_def build_error_pt)
  from one two show ?thesis by blast
qed

theorem C7_padding_type_range_witness:
  "SignatureBlock_init [] 0x02 None = Inr (unpadded_block [] 2 13) \<and>
   SignatureBlock_init [] 3 None = Inr (unpadded_block [] 3 13) \<and>
   offsets (unpadded_block [] 3 13) = offsets (unpadded_block [] 2 13) \<and>
   raw (unpadded_block [] 3 13) = (raw (unpadded_block [] 2 13)) [1 := 3] \<and>
   SignatureBlock_init [] 256 None = Inl ValueError"
proof -
  have b2: "SignatureBlock_init [] 0x02 None = Inr (unpadded_block [] 2 13)"
    by (simp add: init_None build_unpadded)
  have b3: "SignatureBlock_init [] 3 None = Inr (unpadded_block [] 3 13)"
    by (simp add: init_None build_unpadded)
  from C7_padding_type_range [of 3 "[]" None "unpadded_block [] 2 13"] b2 b3
  have "offsets (unpadded_block [] 3 13) = offsets (unpadded_block [] 2 13) \<and>
        raw (unpadded_block [] 3 13) = (raw (unpadded_block [] 2 13)) [1 := 3]"
    by simp
  moreover from C7_padding_type_range [of 256 "[]" None "unpadded_block [] 2 13"]
  have "SignatureBlock_init [] 256 None = Inl ValueError"
    by simp
  ultimately show ?thesis using b2 b3 by simp
qed

text \<open>The padding type 3 is no member of the enumeration, and a block is built for it.\<close>

theorem C7_padding_type_range_counterexample:
  "SignatureBlock_init [] 3 None = Inr (unpadded_block [] 3 13) \<and>
   SignatureBlock_init [] 3 None \<noteq> Inl ValueError"
  by (simp add: init_None build_unpadded)

text \<open>
  C8. For every byte string, reading back the hex columns of its dump with 16 columns
  (the offset column and the printable gutter dropped) gives the byte string again.
\<close>

theorem C8_hex_dump_roundtrip:
  "\<exists>s. hex_dump B 16 = Inr s \<and> parse_hex_dump 16 s = Some B"
proof (cases "B = []")
  case True
  then show ?thesis
    by (simp add: hex_dump_def hex_rows.simps [of 16 0 "[]"] parse_hex_dump_def parse_row_def)
next
  case False
  then have ne: "hex_rows 16 0 B \<noteq> []"
    by (simp add: hex_rows.simps [of 16 0 B])
  have "split_on (CHR 0x0A) (join [CHR 0x0A] (hex_rows 16 0 B)) = hex_rows 16 0 B"
    using ne newline_not_in_hex_rows by (rule split_on_join)
  then show ?thesis
    by (simp add: hex_dump_def parse_hex_dump_def parse_rows)
qed

theorem C8_hex_dump_roundtrip_witness:
  "\<exists>s. hex_dump [0x46, 0x49, 0x52, 0x4D, 0x0A, 0x20] 16 = Inr s \<and>
        parse_hex_dump 16 s = Some [0x46, 0x49, 0x52, 0x4D, 0x0A, 0x20]"
  using C8_hex_dump_roundtrip [of "[0x46, 0x49, 0x52, 0x4D, 0x0A, 0x20]"] .

text \<open>
  C9. The fifteen recorded offsets of a block depend on the padding type alone: two blocks
  built with the same padding type have the same offsets, whatever their firmware and
  their override. So the probe block and the forged block of the two-pass forging have
  the same offsets.
\<close>

theorem C9_offsets_by_padding_type:
  "(\<forall>F1 F2 pt ov1 ov2 b1 b2.
       SignatureBlock_init F1 pt ov1 = Inr b1 \<and> SignatureBlock_init F2 pt ov2 = Inr b2 \<longrightarrow>
       offsets b1 = offsets b2) \<and>
   (\<forall>F. \<exists>probe blk info.
       SignatureBlock_init F 0x02 (Some 13) = Inr probe \<and> forge_sighax F = Inr (blk, info) \<and>
       offsets probe = offsets blk)"
proof (intro conjI allI impI)
  fix F1 F2 pt ov1 ov2 b1 b2
  assume a: "SignatureBlock_init F1 pt ov1 = Inr b1 \<and> SignatureBlock_init F2 pt ov2 = Inr b2"
  from a init_Inr [of F1 pt ov1 b1] init_Inr [of F2 pt ov2 b2]
  show "offsets b1 = offsets b2"
    by (auto simp: offsets_unpadded offsets_padded)
next
  fix F
  show "\<exists>probe blk info.
       SignatureBlock_init F 0x02 (Some 13) = Inr probe \<and> forge_sighax F = Inr (blk, info) \<and>
       offsets probe = offsets blk"
    by (simp add: forge_sighax_eq init_Some build_unpadded offsets_unpadded)
qed

theorem C9_offsets_by_padding_type_witness:
  "SignatureBlock_init [] 0x01 None = Inr (padded_block [] 13) \<and>
   SignatureBlock_init [0x4E] 0x01 (Some 200) = Inr (padded_block [0x4E] 200) \<and>
   offsets (padded_block [] 13) = offsets (padded_block [0x4E] 200)"
proof -
  have b1: "SignatureBlock_init [] 0x01 None = Inr (padded_block [] 13)"
    by (simp add: init_None build_padded)
  have b2: "SignatureBlock_init [0x4E] 0x01 (Some 200) = Inr (padded_block [0x4E] 200)"
    by (simp add: init_Some build_padded)
  from C9_offsets_by_padding_type b1 b2
  have "offsets (padded_block [] 13) = offsets (padded_block [0x4E] 200)"
    by blast
  with b1 b2 show ?thesis by simp
qed

text \<open>
  C10, as amended. The claim is that an override changes exactly one byte of the raw
  bytes against the build with the default 13. An override writes one position, the one
  at \<open>off_0d\<close>, which holds 13 by default and the override otherwise; every other byte and
  every recorded offset is the same in the two builds. So the two builds differ in
  exactly one byte when the override is not 13, and in none when it is 13.
\<close>

theorem C10_override_frame:
  assumes "SignatureBlock_init F pt (Some v) = Inr b1"
    and "SignatureBlock_init F pt None = Inr b0"
  shows "raw b1 = (raw b0) [nat (off_0d b0) := word_of_int v] \<and>
         nat (off_0d b0) < length (raw b0) \<and>
         raw b0 ! nat (off_0d b0) = 13 \<and>
         raw b1 ! nat (off_0d b0) = word_of_int v \<and>
         offsets b1 = offsets b0 \<and>
         (raw b1 \<noteq> raw b0 \<longleftrightarrow> v \<noteq> 13)"
proof -
  from init_Inr [OF assms(1)] have v: "0 \<le> v" "v < 256" "0 \<le> pt" "pt < 256"
    and b1: "b1 = (if pt = 1 then padded_block F v else unpadded_block F pt v)"
    by auto
  from init_Inr [OF assms(2)]
  have b0: "b0 = (if pt = 1 then padded_block F 13 else unpadded_block F pt 13)"
    by auto
  have neq: "((word_of_int v :: byte) = 13) = (v = 13)"
    using word_of_int_byte_eq [of v 13] v by simp
  show ?thesis
  proof (cases "pt = 1")
    case True
    have "raw b1 = (raw b0) [79 := word_of_int v]"
      using True b0 b1 by (simp add: raw_padded_update)
    moreover have "off_0d b0 = 79" "length (raw b0) = 127" "raw b0 ! 79 = 13"
      using True b0
      by (simp_all add: length_raw_padded)
         (simp_all add: padded_block_def padded_nth nth_append length_padded_prefix)
    moreover have "offsets b1 = offsets b0"
      using True b0 b1 by (simp add: offsets_padded)
    ultimately show ?thesis
      using neq by (auto simp: list_update_same_conv)
  next
    case False
    have "raw b1 = (raw b0) [6 := word_of_int v]"
      using False b0 b1 by (simp add: raw_unpadded_update)
    moreover have "off_0d b0 = 6" "length (raw b0) = 54" "raw b0 ! 6 = 13"
      using False b0
      by (simp_all add: length_raw_unpadded)
         (simp_all add: unpadded_block_def unpadded_nth nth_append length_unpadded_prefix)
    moreover have "offsets b1 = offsets b0"
      using False b0 b1 by (simp add: offsets_unpadded)
    ultimately show ?thesis
      using neq by (auto simp: list_update_same_conv)
  qed
qed

theorem C10_override_frame_witness:
  "SignatureBlock_init [] 0x02 (Some 15) = Inr (unpadded_block [] 2 15) \<and>
   SignatureBlock_init [] 0x02 None = Inr (unpadded_block [] 2 13) \<and>
   raw (unpadded_block [] 2 15)
     = (raw (unpadded_block [] 2 13)) [nat (off_0d (unpadded_block [] 2 13)) := word_of_int 15] \<and>
   offsets (unpadded_block [] 2 15) = offsets (unpadded_block [] 2 13) \<and>
   raw (unpadded_block [] 2 15) \<noteq> raw (unpadded_block [] 2 13)"
proof -
  have b1: "SignatureBlock_init [] 0x02 (Some 15) = Inr (unpadded_block [] 2 15)"
    by (simp add: init_Some build_unpadded)
  have b0: "SignatureBlock_init [] 0x02 None = Inr (unpadded_block [] 2 13)"
    by (simp add: init_None build_unpadded)
  have "(15 :: int) \<noteq> 13" by simp
  with C10_override_frame [OF b1 b0] b1 b0 show ?thesis by blast
qed

text \<open>
  The override 13, the one that the probe block of \<open>forge_sighax\<close> is built with, changes
  no byte: the raw bytes are those of the default build.
\<close>

theorem C10_override_frame_counterexample:
  "map_sum id raw (SignatureBlock_init [] 0x01 (Some 13)) =
   map_sum id raw (SignatureBlock_init [] 0x01 None)"
  by (simp add: init_None init_Some)

end
